theory Spec2Isabelle
  imports Main
begin

section \<open>Checkpoint selection state (cli/src/state/atoms/checkpoint.ts)\<close>

text \<open>
  The jotai atoms of the double-ESC checkpoint selection feature, as explicit state
  passing: every primitive atom is a field of \<open>CheckpointState\<close>, every derived atom a
  function of the state, every action atom a function from the state to the new state
  (paired with its return value where the action returns one).

  JavaScript numbers that hold timestamps, indices and counts are integers here
  (\<open>int\<close>); strings are lists of characters, one \<open>char\<close> per code unit.
\<close>

subsection \<open>Types\<close>

text \<open>The fields of an \<open>ExtensionMessage\<close> that the atoms read. \<open>m_suppressMessage\<close> is
  \<open>metadata?.suppressMessage\<close>: \<open>None\<close> when the metadata or the flag is absent.\<close>

record ExtensionMessage =
  m_ts :: int
  m_type :: string
  m_say :: "string option"
  m_text :: "string option"
  m_suppressMessage :: "bool option"

record CheckpointInfo =
  ts :: int
  commitHash :: string
  isAutoSaved :: bool
  relativeTime :: string
  userMessagePreview :: "string option"

datatype RestoreType = both | conversation | code

record RestoreTypeOption =
  rt_value :: RestoreType
  rt_label :: string
  rt_description :: string

subsection \<open>Constants\<close>

definition DOUBLE_ESC_WINDOW_MS :: int where
  "DOUBLE_ESC_WINDOW_MS = 500"

definition RESTORE_TYPE_OPTIONS :: "RestoreTypeOption list" where
  "RESTORE_TYPE_OPTIONS =
    [\<lparr>rt_value = both, rt_label = ''Restore Both'',
       rt_description = ''Restore conversation and code to this checkpoint''\<rparr>,
     \<lparr>rt_value = conversation, rt_label = ''Conversation Only'',
       rt_description = ''Restore conversation history only (keep current code)''\<rparr>,
     \<lparr>rt_value = code, rt_label = ''Code Only'',
       rt_description = ''Restore code only (keep current conversation)''\<rparr>]"

subsection \<open>Core state atoms\<close>

record CheckpointState =
  chatMessages :: "ExtensionMessage list"
  checkpointSelectionMode :: bool
  restoreTypeSelectionMode :: bool
  selectedCheckpointIndex :: int
  selectedRestoreTypeIndex :: int
  selectedCheckpoint :: "CheckpointInfo option"
  lastEscPressTime :: int

text \<open>The initial value of every atom (the argument of its \<open>atom(...)\<close> call); the chat
  messages come from the extension state.\<close>

definition initialState :: "ExtensionMessage list \<Rightarrow> CheckpointState" where
  "initialState msgs =
    \<lparr>chatMessages = msgs, checkpointSelectionMode = False, restoreTypeSelectionMode = False,
     selectedCheckpointIndex = 0, selectedRestoreTypeIndex = 0, selectedCheckpoint = None,
     lastEscPressTime = 0\<rparr>"

subsection \<open>JavaScript primitives used by the atoms\<close>

text \<open>\<open>a % b\<close>: the remainder takes the sign of the dividend.\<close>

definition js_rem :: "int \<Rightarrow> int \<Rightarrow> int" where
  "js_rem a b = sgn a * (\<bar>a\<bar> mod \<bar>b\<bar>)"

text \<open>A string is truthy when it is present and not empty.\<close>

fun truthy :: "string option \<Rightarrow> bool" where
  "truthy None = False"
| "truthy (Some s) = (s \<noteq> [])"

text \<open>\<open>String.prototype.trim\<close>: white space and line terminators, for the code units
  a \<open>char\<close> can hold (tab, LF, VT, FF, CR, space, no-break space).\<close>

definition is_js_space :: "char \<Rightarrow> bool" where
  "is_js_space c = ((of_char c :: nat) \<in> {9, 10, 11, 12, 13, 32, 160})"

definition trim :: "string \<Rightarrow> string" where
  "trim s = rev (dropWhile is_js_space (rev (dropWhile is_js_space s)))"

text \<open>\<open>s.slice(0, e)\<close>: a negative end counts from the end of the string.\<close>

definition slice0 :: "string \<Rightarrow> int \<Rightarrow> string" where
  "slice0 s e =
    (let n = int (length s);
         k = (if e < 0 then max (n + e) 0 else min e n)
     in take (nat k) s)"

text \<open>Decimal rendering of a number in a template string.\<close>

fun show_nat :: "nat \<Rightarrow> string" where
  "show_nat n =
    (if n < 10 then [char_of (48 + n)]
     else show_nat (n div 10) @ [char_of (48 + n mod 10)])"

definition show_int :: "int \<Rightarrow> string" where
  "show_int i = (if i < 0 then CHR ''-'' # show_nat (nat (- i)) else show_nat (nat i))"

subsection \<open>Helper functions\<close>

text \<open>\<open>formatRelativeTime\<close> reads the clock (\<open>Date.now()\<close>, here \<open>now\<close>) and, for old
  checkpoints, formats a date with the host's locale (here \<open>toLocaleDateString\<close>).\<close>

definition formatRelativeTime :: "int \<Rightarrow> (int \<Rightarrow> string) \<Rightarrow> int \<Rightarrow> string" where
  "formatRelativeTime now toLocaleDateString t =
    (let diffMs = now - t;
         diffMins = diffMs div (1000 * 60);
         diffHours = diffMs div (1000 * 60 * 60);
         diffDays = diffMs div (1000 * 60 * 60 * 24)
     in if diffMins < 1 then ''just now''
        else if diffMins < 60 then
          show_int diffMins @ '' minute'' @ (if diffMins = 1 then '''' else ''s'') @ '' ago''
        else if diffHours < 24 then
          show_int diffHours @ '' hour'' @ (if diffHours = 1 then '''' else ''s'') @ '' ago''
        else if diffDays < 7 then
          show_int diffDays @ '' day'' @ (if diffDays = 1 then '''' else ''s'') @ '' ago''
        else toLocaleDateString t)"

definition truncateText :: "string \<Rightarrow> int \<Rightarrow> string" where
  "truncateText text maxLength =
    (if int (length text) \<le> maxLength then text
     else slice0 text (maxLength - 3) @ ''...'')"

text \<open>The loop of \<open>findPrecedingUserMessage\<close> runs from the last message to the first;
  \<open>findPrecedingFrom\<close> is that loop over the reversed list. Every index of the loop
  is in range, so the guard \<open>if (!msg) continue\<close> never fires and has no branch
  here.\<close>

fun findPrecedingFrom :: "ExtensionMessage list \<Rightarrow> int \<Rightarrow> string option" where
  "findPrecedingFrom [] beforeTs = None"
| "findPrecedingFrom (msg # earlier) beforeTs =
    (if m_ts msg \<ge> beforeTs then findPrecedingFrom earlier beforeTs
     else if m_type msg = ''say'' \<and> m_say msg = Some ''user_feedback'' \<and> truthy (m_text msg)
     then (case m_text msg of
             Some text \<Rightarrow> Some (truncateText (trim text) 50)
           | None \<Rightarrow> findPrecedingFrom earlier beforeTs)
     else findPrecedingFrom earlier beforeTs)"

definition findPrecedingUserMessage :: "ExtensionMessage list \<Rightarrow> int \<Rightarrow> string option" where
  "findPrecedingUserMessage messages beforeTs = findPrecedingFrom (rev messages) beforeTs"

text \<open>The messages at which that loop returns: a \<open>user_feedback\<close> message with a
  strictly earlier timestamp and a text that is present and not empty.\<close>

definition stopsAt :: "int \<Rightarrow> ExtensionMessage \<Rightarrow> bool" where
  "stopsAt beforeTs msg =
    (m_ts msg < beforeTs \<and> m_type msg = ''say'' \<and> m_say msg = Some ''user_feedback''
     \<and> truthy (m_text msg))"

text \<open>\<open>rel\<close> stands for \<open>formatRelativeTime\<close> at the moment the list is derived, that is
  \<open>formatRelativeTime now toLocaleDateString\<close> for the clock reading \<open>now\<close>.\<close>

definition extractCheckpointInfo ::
  "(int \<Rightarrow> string) \<Rightarrow> ExtensionMessage \<Rightarrow> ExtensionMessage list \<Rightarrow> CheckpointInfo option" where
  "extractCheckpointInfo rel msg allMessages =
    (if m_type msg \<noteq> ''say'' \<or> m_say msg \<noteq> Some ''checkpoint_saved'' \<or> \<not> truthy (m_text msg)
     then None
     else (case m_text msg of
             None \<Rightarrow> None
           | Some text \<Rightarrow>
               Some \<lparr>ts = m_ts msg, commitHash = text,
                     isAutoSaved = (m_suppressMessage msg = Some True),
                     relativeTime = rel (m_ts msg),
                     userMessagePreview = findPrecedingUserMessage allMessages (m_ts msg)\<rparr>))"

subsection \<open>Derived atoms\<close>

text \<open>\<open>Array.prototype.sort\<close> is stable; so is \<open>sort_key\<close>. The comparator
  \<open>b.ts - a.ts\<close> orders by descending timestamp.\<close>

definition checkpointList :: "(int \<Rightarrow> string) \<Rightarrow> CheckpointState \<Rightarrow> CheckpointInfo list" where
  "checkpointList rel s =
    sort_key (\<lambda>c. - ts c)
      (List.map_filter (\<lambda>msg. extractCheckpointInfo rel msg (chatMessages s)) (chatMessages s))"

definition hasCheckpoints :: "(int \<Rightarrow> string) \<Rightarrow> CheckpointState \<Rightarrow> bool" where
  "hasCheckpoints rel s = (length (checkpointList rel s) > 0)"

definition checkpointCount :: "(int \<Rightarrow> string) \<Rightarrow> CheckpointState \<Rightarrow> int" where
  "checkpointCount rel s = int (length (checkpointList rel s))"

definition currentSelectedCheckpoint ::
  "(int \<Rightarrow> string) \<Rightarrow> CheckpointState \<Rightarrow> CheckpointInfo option" where
  "currentSelectedCheckpoint rel s =
    (let checkpoints = checkpointList rel s;
         index = selectedCheckpointIndex s
     in if index < 0 \<or> index \<ge> int (length checkpoints) then None
        else Some (checkpoints ! nat index))"

definition currentSelectedRestoreType :: "CheckpointState \<Rightarrow> RestoreTypeOption option" where
  "currentSelectedRestoreType s =
    (let index = selectedRestoreTypeIndex s
     in if index < 0 \<or> index \<ge> int (length RESTORE_TYPE_OPTIONS) then None
        else Some (RESTORE_TYPE_OPTIONS ! nat index))"

subsection \<open>Action atoms\<close>

definition enterCheckpointSelectionMode ::
  "(int \<Rightarrow> string) \<Rightarrow> CheckpointState \<Rightarrow> bool \<times> CheckpointState" where
  "enterCheckpointSelectionMode rel s =
    (if \<not> hasCheckpoints rel s then (False, s)
     else (True, s\<lparr>checkpointSelectionMode := True,
                    restoreTypeSelectionMode := False,
                    selectedCheckpointIndex := 0,
                    selectedCheckpoint := None\<rparr>))"

definition exitCheckpointSelectionMode :: "CheckpointState \<Rightarrow> CheckpointState" where
  "exitCheckpointSelectionMode s =
    s\<lparr>checkpointSelectionMode := False,
      restoreTypeSelectionMode := False,
      selectedCheckpointIndex := 0,
      selectedRestoreTypeIndex := 0,
      selectedCheckpoint := None\<rparr>"

definition confirmCheckpointSelection ::
  "(int \<Rightarrow> string) \<Rightarrow> CheckpointState \<Rightarrow> bool \<times> CheckpointState" where
  "confirmCheckpointSelection rel s =
    (case currentSelectedCheckpoint rel s of
       None \<Rightarrow> (False, s)
     | Some checkpoint \<Rightarrow>
         (True, s\<lparr>selectedCheckpoint := Some checkpoint,
                  checkpointSelectionMode := False,
                  restoreTypeSelectionMode := True,
                  selectedRestoreTypeIndex := 0\<rparr>))"

definition backToCheckpointSelection :: "CheckpointState \<Rightarrow> CheckpointState" where
  "backToCheckpointSelection s =
    s\<lparr>restoreTypeSelectionMode := False,
      checkpointSelectionMode := True,
      selectedRestoreTypeIndex := 0\<rparr>"

definition navigateCheckpointUp :: "(int \<Rightarrow> string) \<Rightarrow> CheckpointState \<Rightarrow> CheckpointState" where
  "navigateCheckpointUp rel s =
    (let count = checkpointCount rel s
     in if count = 0 then s
        else let currentIndex = selectedCheckpointIndex s;
                 newIndex = (if currentIndex = 0 then count - 1 else currentIndex - 1)
             in s\<lparr>selectedCheckpointIndex := newIndex\<rparr>)"

definition navigateCheckpointDown :: "(int \<Rightarrow> string) \<Rightarrow> CheckpointState \<Rightarrow> CheckpointState" where
  "navigateCheckpointDown rel s =
    (let count = checkpointCount rel s
     in if count = 0 then s
        else let currentIndex = selectedCheckpointIndex s;
                 newIndex = js_rem (currentIndex + 1) count
             in s\<lparr>selectedCheckpointIndex := newIndex\<rparr>)"

definition navigateRestoreTypeUp :: "CheckpointState \<Rightarrow> CheckpointState" where
  "navigateRestoreTypeUp s =
    (let count = int (length RESTORE_TYPE_OPTIONS);
         currentIndex = selectedRestoreTypeIndex s;
         newIndex = (if currentIndex = 0 then count - 1 else currentIndex - 1)
     in s\<lparr>selectedRestoreTypeIndex := newIndex\<rparr>)"

definition navigateRestoreTypeDown :: "CheckpointState \<Rightarrow> CheckpointState" where
  "navigateRestoreTypeDown s =
    (let count = int (length RESTORE_TYPE_OPTIONS);
         currentIndex = selectedRestoreTypeIndex s;
         newIndex = js_rem (currentIndex + 1) count
     in s\<lparr>selectedRestoreTypeIndex := newIndex\<rparr>)"

text \<open>\<open>now\<close> is the reading of \<open>Date.now()\<close> at the call.\<close>

definition recordEscPress :: "int \<Rightarrow> CheckpointState \<Rightarrow> bool \<times> CheckpointState" where
  "recordEscPress now s =
    (let lastPress = lastEscPressTime s;
         timeSinceLastPress = now - lastPress
     in (timeSinceLastPress > 0 \<and> timeSinceLastPress \<le> DOUBLE_ESC_WINDOW_MS,
         s\<lparr>lastEscPressTime := now\<rparr>))"

definition resetEscPressTimer :: "CheckpointState \<Rightarrow> CheckpointState" where
  "resetEscPressTimer s = s\<lparr>lastEscPressTime := 0\<rparr>"

text \<open>A sequence of ESC presses at the clock readings \<open>nows\<close>, with the classification
  of each press.\<close>

fun recordEscPresses :: "int list \<Rightarrow> CheckpointState \<Rightarrow> bool list \<times> CheckpointState" where
  "recordEscPresses [] s = ([], s)"
| "recordEscPresses (now # nows) s =
    (case recordEscPress now s of
       (isDouble, s') \<Rightarrow>
         (case recordEscPresses nows s' of (rest, s'') \<Rightarrow> (isDouble # rest, s'')))"


subsection \<open>The store: setting an action atom\<close>

text \<open>The user interface drives the state by setting one action atom at a time
  (\<open>store.set(actionAtom)\<close>); \<open>dispatch\<close> is that call, with the return value dropped.\<close>

datatype Action =
    EnterCheckpointSelectionMode
  | ExitCheckpointSelectionMode
  | ConfirmCheckpointSelection
  | BackToCheckpointSelection
  | NavigateCheckpointUp
  | NavigateCheckpointDown
  | NavigateRestoreTypeUp
  | NavigateRestoreTypeDown
  | RecordEscPress int
  | ResetEscPressTimer

fun dispatch :: "(int \<Rightarrow> string) \<Rightarrow> Action \<Rightarrow> CheckpointState \<Rightarrow> CheckpointState" where
  "dispatch rel EnterCheckpointSelectionMode s = snd (enterCheckpointSelectionMode rel s)"
| "dispatch rel ExitCheckpointSelectionMode s = exitCheckpointSelectionMode s"
| "dispatch rel ConfirmCheckpointSelection s = snd (confirmCheckpointSelection rel s)"
| "dispatch rel BackToCheckpointSelection s = backToCheckpointSelection s"
| "dispatch rel NavigateCheckpointUp s = navigateCheckpointUp rel s"
| "dispatch rel NavigateCheckpointDown s = navigateCheckpointDown rel s"
| "dispatch rel NavigateRestoreTypeUp s = navigateRestoreTypeUp s"
| "dispatch rel NavigateRestoreTypeDown s = navigateRestoreTypeDown s"
| "dispatch rel (RecordEscPress now) s = snd (recordEscPress now s)"
| "dispatch rel ResetEscPressTimer s = resetEscPressTimer s"

fun dispatchAll ::
  "(int \<Rightarrow> string) \<Rightarrow> Action list \<Rightarrow> CheckpointState \<Rightarrow> CheckpointState" where
  "dispatchAll rel [] s = s"
| "dispatchAll rel (a # as) s = dispatchAll rel as (dispatch rel a s)"

subsection \<open>Sessions as the user interface runs them\<close>







subsection \<open>A small log for the examples\<close>

text \<open>A user message at \<open>t = 5\<close>, then checkpoint markers at \<open>t = 10\<close> (hash \<open>AAA\<close>),
  \<open>t = 20\<close> (hash \<open>BBB\<close>) and \<open>t = 30\<close> (hash \<open>CCC\<close>, saved automatically).\<close>

definition sayMessage :: "int \<Rightarrow> string \<Rightarrow> string \<Rightarrow> ExtensionMessage" where
  "sayMessage t say text =
    \<lparr>m_ts = t, m_type = ''say'', m_say = Some say, m_text = Some text,
     m_suppressMessage = None\<rparr>"

definition exampleLog :: "ExtensionMessage list" where
  "exampleLog =
    [sayMessage 5 ''user_feedback'' ''fix the bug'',
     sayMessage 10 ''checkpoint_saved'' ''AAA'',
     sayMessage 20 ''checkpoint_saved'' ''BBB'',
     (sayMessage 30 ''checkpoint_saved'' ''CCC'')\<lparr>m_suppressMessage := Some True\<rparr>]"

definition exampleRel :: "int \<Rightarrow> string" where
  "exampleRel = formatRelativeTime 100000 (\<lambda>t. ''Jan 1, 1970'')"

section \<open>The manage_tabs tool (src/core/tools/manageTabsTool.ts)\<close>

subsection \<open>\<open>parseInt\<close> and \<open>lastIndexOf\<close>\<close>

text \<open>The value of a code unit as a digit of radix \<open>R\<close>: \<open>0\<close>-\<open>9\<close>, then the letters
  in either case.\<close>

definition digit_val :: "nat \<Rightarrow> char \<Rightarrow> nat option" where
  "digit_val R c =
    (let n = (of_char c :: nat);
         v = (if 48 \<le> n \<and> n \<le> 57 then Some (n - 48)
              else if 97 \<le> n \<and> n \<le> 122 then Some (n - 87)
              else if 65 \<le> n \<and> n \<le> 90 then Some (n - 55)
              else None)
     in case v of None \<Rightarrow> None | Some d \<Rightarrow> if d < R then Some d else None)"

definition digits_value :: "nat \<Rightarrow> string \<Rightarrow> nat" where
  "digits_value R Z =
    foldl (\<lambda>acc c. acc * R + (case digit_val R c of Some d \<Rightarrow> d | None \<Rightarrow> 0)) 0 Z"

text \<open>\<open>parseInt(string)\<close> with no radix, after ECMAScript: skip leading white space, read
  a sign, switch to radix 16 after \<open>0x\<close> or \<open>0X\<close>, take the longest run of digits;
  \<open>NaN\<close> (here \<open>None\<close>) when that run is empty. The result is the mathematical integer:
  the rounding of a JavaScript number beyond \<open>2^53\<close> is not modelled.\<close>

definition parseInt :: "string \<Rightarrow> int option" where
  "parseInt inputString =
    (let S = dropWhile is_js_space inputString;
         sign = (if S \<noteq> [] \<and> hd S = CHR ''-'' then - 1 else 1 :: int);
         S1 = (if S \<noteq> [] \<and> (hd S = CHR ''+'' \<or> hd S = CHR ''-'') then tl S else S);
         hex = (length S1 \<ge> 2 \<and> (take 2 S1 = ''0x'' \<or> take 2 S1 = ''0X''));
         R = (if hex then 16 else 10 :: nat);
         S2 = (if hex then drop 2 S1 else S1);
         Z = takeWhile (\<lambda>c. digit_val R c \<noteq> None) S2
     in if Z = [] then None else Some (sign * int (digits_value R Z)))"

text \<open>\<open>s.lastIndexOf(c)\<close>: the loop keeps the last index seen, \<open>-1\<close> when there is
  none.\<close>

fun lastIndexFrom :: "char \<Rightarrow> string \<Rightarrow> int \<Rightarrow> int \<Rightarrow> int" where
  "lastIndexFrom c [] i found = found"
| "lastIndexFrom c (x # xs) i found = lastIndexFrom c xs (i + 1) (if x = c then i else found)"

definition lastIndexOf :: "string \<Rightarrow> char \<Rightarrow> int" where
  "lastIndexOf s c = lastIndexFrom c s 0 (- 1)"

subsection \<open>\<open>parseFileWithLine\<close>\<close>

record FileWithLine =
  path :: string
  line :: "int option"

definition parseFileWithLine :: "string \<Rightarrow> FileWithLine" where
  "parseFileWithLine filePath =
    (let hashIndex = lastIndexOf filePath (CHR ''#'')
     in if hashIndex = - 1 then \<lparr>path = filePath, line = None\<rparr>
        else let pathPart = take (nat hashIndex) filePath;
                 linePart = drop (nat (hashIndex + 1)) filePath
             in case parseInt linePart of
                  None \<Rightarrow> \<lparr>path = filePath, line = None\<rparr>
                | Some lineNumber \<Rightarrow>
                    if lineNumber < 1 then \<lparr>path = filePath, line = None\<rparr>
                    else \<lparr>path = pathPart, line = Some lineNumber\<rparr>)"

subsection \<open>\<open>manageTabsTool\<close>\<close>

text \<open>The tool call (\<open>block\<close>): its three parameters, each possibly absent, and the
  streaming flag.\<close>

record ToolUse =
  p_action :: "string option"
  p_file :: "string option"
  p_files :: "string option"
  block_partial :: bool

text \<open>What the tool reads and writes of the task: the mistake counter and the tool
  errors recorded by \<open>recordToolError\<close>.\<close>

record Task =
  consecutiveMistakeCount :: nat
  toolErrors :: "string list"

text \<open>A result handed to \<open>pushToolResult\<close>: the missing-parameter error built by
  \<open>sayAndCreateMissingParamError(tool, param)\<close>, or a translated message \<open>t(key)\<close>.\<close>

datatype ToolResult = MissingParamError string string | Translated string

text \<open>The handler the tool calls once validation has passed, with its arguments.\<close>

datatype TabAction = HandleOpenAction "string option" "string option" | HandleCloseAction string

text \<open>One run of the tool: the task afterwards, the results pushed, the partial message
  asked (\<open>task.ask\<close>), and the handler called. The collaborators (\<open>task.ask\<close>,
  \<open>sayAndCreateMissingParamError\<close>, \<open>t\<close>, \<open>pushToolResult\<close>) return normally here; the
  handlers' own work in the editor is outside the model.\<close>

record ToolRun =
  task_after :: Task
  pushed :: "ToolResult list"
  asked :: "string list"
  handled :: "TabAction option"

definition mistake :: "Task \<Rightarrow> Task" where
  "mistake task =
    task\<lparr>consecutiveMistakeCount := consecutiveMistakeCount task + 1,
         toolErrors := toolErrors task @ [''manage_tabs'']\<rparr>"

definition manageTabsTool ::
  "(string \<Rightarrow> string option \<Rightarrow> string) \<Rightarrow> Task \<Rightarrow> ToolUse \<Rightarrow> ToolRun" where
  "manageTabsTool removeClosingTag task block =
    (let action = p_action block; file = p_file block; files = p_files block
     in if block_partial block then
          \<lparr>task_after = task, pushed = [], asked = [removeClosingTag ''action'' action],
           handled = None\<rparr>
        else if \<not> truthy action \<or> action \<notin> set [Some ''open'', Some ''close''] then
          \<lparr>task_after = mistake task,
           pushed = [MissingParamError ''manage_tabs'' ''action''], asked = [], handled = None\<rparr>
        else if action = Some ''open'' \<and> \<not> truthy file \<and> \<not> truthy files then
          \<lparr>task_after = mistake task,
           pushed = [Translated ''kilocode:manageTabs.errors.openRequiresFile''], asked = [],
           handled = None\<rparr>
        else if action = Some ''close'' \<and> \<not> truthy file then
          \<lparr>task_after = mistake task,
           pushed = [MissingParamError ''manage_tabs'' ''file''], asked = [], handled = None\<rparr>
        else
          \<lparr>task_after = task\<lparr>consecutiveMistakeCount := 0\<rparr>, pushed = [], asked = [],
           handled =
             (if action = Some ''open'' then Some (HandleOpenAction file files)
              else case file of
                     Some f \<Rightarrow> Some (HandleCloseAction f)
                   | None \<Rightarrow> None)\<rparr>)"

section \<open>The log reconciler\<close>

text \<open>
  Modelled from the spec: \<open>reconcileMessages\<close> of \<open>cli/src/state/atoms/extension.ts\<close>,
  whose file is not among the sources; only an excerpt of the function is quoted in the
  feature plan (\<open>cli/docs/FEATURE_PLAN_DOUBLE_ESC_CHECKPOINT_RESTORE.md\<close>). The
  definitions of this section follow the words of the specification's section on the
  Log Reconciler (rules 1 to 5) and that excerpt: an incoming entry is returned unless
  one of the two protections keeps the local one.
\<close>






subsection \<open>A small log for the examples of the reconciler\<close>









section \<open>The gesture detector\<close>

lemma recordEscPress_eq:
  "recordEscPress now s =
     (0 < now - lastEscPressTime s \<and> now - lastEscPressTime s \<le> DOUBLE_ESC_WINDOW_MS,
      s\<lparr>lastEscPressTime := now\<rparr>)"
  by (simp add: recordEscPress_def Let_def)

lemma recordEscPresses_fst:
  "fst (recordEscPresses nows s) =
     map (\<lambda>(lastPress, now). 0 < now - lastPress \<and> now - lastPress \<le> DOUBLE_ESC_WINDOW_MS)
       (zip (lastEscPressTime s # nows) nows)"
proof (induction nows arbitrary: s)
  case Nil
  show ?case by simp
next
  case (Cons now nows)
  obtain r s2 where run: "recordEscPresses nows (s\<lparr>lastEscPressTime := now\<rparr>) = (r, s2)"
    by (cases "recordEscPresses nows (s\<lparr>lastEscPressTime := now\<rparr>)")
  from Cons [of "s\<lparr>lastEscPressTime := now\<rparr>"] run show ?case
    by (simp add: recordEscPress_eq)
qed

lemma recordEscPresses_snd:
  "snd (recordEscPresses nows s) = s\<lparr>lastEscPressTime := last (lastEscPressTime s # nows)\<rparr>"
proof (induction nows arbitrary: s)
  case Nil
  show ?case by simp
next
  case (Cons now nows)
  obtain r s2 where run: "recordEscPresses nows (s\<lparr>lastEscPressTime := now\<rparr>) = (r, s2)"
    by (cases "recordEscPresses nows (s\<lparr>lastEscPressTime := now\<rparr>)")
  from Cons [of "s\<lparr>lastEscPressTime := now\<rparr>"] run show ?case
    by (simp add: recordEscPress_eq)
qed

text \<open>
  Claim C1. \<open>Date.now()\<close> reads the milliseconds since the start of 1970, so every
  reading of the clock lies beyond the window of 500 ms. For such readings, and from
  every state, a press at the reading \<open>now\<close> is classified double exactly when a
  previous press has been recorded (the stored time is not \<open>0\<close>, the value that
  stands for "never") and \<open>0 < now - lastEscPressTime \<le> DOUBLE_ESC_WINDOW_MS\<close>; it
  is classified single when \<open>now - lastEscPressTime\<close> exceeds the window or
  \<open>now \<le> lastEscPressTime\<close>; and the stored time is set to \<open>now\<close> by every call,
  double or not, with nothing else of the state changed. The same holds along every
  sequence of presses: each press is compared with the one before it, the first with
  the stored time.
\<close>

theorem recordEscPress_classification:
  assumes "DOUBLE_ESC_WINDOW_MS < now"
    and "\<forall>t \<in> set nows. DOUBLE_ESC_WINDOW_MS < t"
  shows "(fst (recordEscPress now s) \<longleftrightarrow>
            lastEscPressTime s \<noteq> 0 \<and> 0 < now - lastEscPressTime s
            \<and> now - lastEscPressTime s \<le> DOUBLE_ESC_WINDOW_MS)
    \<and> (DOUBLE_ESC_WINDOW_MS < now - lastEscPressTime s \<or> now \<le> lastEscPressTime s
         \<longrightarrow> \<not> fst (recordEscPress now s))
    \<and> snd (recordEscPress now s) = s\<lparr>lastEscPressTime := now\<rparr>
    \<and> fst (recordEscPresses nows s) =
         map (\<lambda>(lastPress, now). lastPress \<noteq> 0 \<and> 0 < now - lastPress
                \<and> now - lastPress \<le> DOUBLE_ESC_WINDOW_MS)
           (zip (lastEscPressTime s # nows) nows)
    \<and> snd (recordEscPresses nows s)
         = s\<lparr>lastEscPressTime := last (lastEscPressTime s # nows)\<rparr>"
proof -
  have single: "(fst (recordEscPress now s) \<longleftrightarrow>
            lastEscPressTime s \<noteq> 0 \<and> 0 < now - lastEscPressTime s
            \<and> now - lastEscPressTime s \<le> DOUBLE_ESC_WINDOW_MS)"
    using assms(1) by (auto simp: recordEscPress_eq)
  have other: "DOUBLE_ESC_WINDOW_MS < now - lastEscPressTime s \<or> now \<le> lastEscPressTime s
         \<longrightarrow> \<not> fst (recordEscPress now s)"
    by (auto simp: recordEscPress_eq)
  have state: "snd (recordEscPress now s) = s\<lparr>lastEscPressTime := now\<rparr>"
    by (simp add: recordEscPress_eq)
  have "map (\<lambda>(lastPress, now). 0 < now - lastPress \<and> now - lastPress \<le> DOUBLE_ESC_WINDOW_MS)
           (zip (lastEscPressTime s # nows) nows) =
       map (\<lambda>(lastPress, now). lastPress \<noteq> 0 \<and> 0 < now - lastPress
                \<and> now - lastPress \<le> DOUBLE_ESC_WINDOW_MS)
           (zip (lastEscPressTime s # nows) nows)"
  proof (rule map_cong [OF refl])
    fix p assume "p \<in> set (zip (lastEscPressTime s # nows) nows)"
    then have "snd p \<in> set nows" by (metis in_set_zipE prod.collapse)
    with assms(2) have "DOUBLE_ESC_WINDOW_MS < snd p" by blast
    then show "(case p of (lastPress, now) \<Rightarrow>
                  0 < now - lastPress \<and> now - lastPress \<le> DOUBLE_ESC_WINDOW_MS) =
         (case p of (lastPress, now) \<Rightarrow> lastPress \<noteq> 0 \<and> 0 < now - lastPress
                \<and> now - lastPress \<le> DOUBLE_ESC_WINDOW_MS)"
      by (cases p) auto
  qed
  then have seq: "fst (recordEscPresses nows s) =
         map (\<lambda>(lastPress, now). lastPress \<noteq> 0 \<and> 0 < now - lastPress
                \<and> now - lastPress \<le> DOUBLE_ESC_WINDOW_MS)
           (zip (lastEscPressTime s # nows) nows)"
    by (simp only: recordEscPresses_fst)
  from single other state seq recordEscPresses_snd [of nows s] show ?thesis
    by blast
qed

text \<open>Three presses at 1000, 1300 and 2000 ms from the initial state: the first is
  single (no press recorded), the second double, the third single.\<close>

theorem recordEscPress_classification_witness:
  "DOUBLE_ESC_WINDOW_MS < 1000 \<and> DOUBLE_ESC_WINDOW_MS < 1300 \<and> DOUBLE_ESC_WINDOW_MS < 2000
   \<and> \<not> fst (recordEscPress 1000 (initialState []))
   \<and> fst (recordEscPresses [1000, 1300, 2000] (initialState [])) = [False, True, False]
   \<and> lastEscPressTime (snd (recordEscPresses [1000, 1300, 2000] (initialState []))) = 2000"
proof -
  have one: "DOUBLE_ESC_WINDOW_MS < 1000" by (simp add: DOUBLE_ESC_WINDOW_MS_def)
  have big: "\<forall>t \<in> set [1000, 1300, 2000]. DOUBLE_ESC_WINDOW_MS < t"
    by (simp add: DOUBLE_ESC_WINDOW_MS_def)
  from recordEscPress_classification [OF one big, of "initialState []"]
  have "fst (recordEscPress 1000 (initialState [])) \<longleftrightarrow>
            lastEscPressTime (initialState []) \<noteq> 0 \<and> 0 < 1000 - lastEscPressTime (initialState [])
            \<and> 1000 - lastEscPressTime (initialState []) \<le> DOUBLE_ESC_WINDOW_MS"
    and "fst (recordEscPresses [1000, 1300, 2000] (initialState [])) =
         map (\<lambda>(lastPress, now). lastPress \<noteq> 0 \<and> 0 < now - lastPress
                \<and> now - lastPress \<le> DOUBLE_ESC_WINDOW_MS)
           (zip (lastEscPressTime (initialState []) # [1000, 1300, 2000]) [1000, 1300, 2000])"
    and "snd (recordEscPresses [1000, 1300, 2000] (initialState [])) =
          (initialState [])\<lparr>lastEscPressTime :=
             last (lastEscPressTime (initialState []) # [1000, 1300, 2000])\<rparr>"
    by blast+
  then show ?thesis
    by (simp add: DOUBLE_ESC_WINDOW_MS_def initialState_def
        del: recordEscPresses.simps)
qed

section \<open>The selection state machine\<close>

text \<open>The states of the machine are read off the two mode atoms: \<open>Idle\<close> has both
  false, \<open>ChoosingCheckpoint\<close> has \<open>checkpointSelectionMode\<close>, \<open>ChoosingScope\<close> has
  \<open>restoreTypeSelectionMode\<close>. The checkpoint cursor is \<open>selectedCheckpointIndex\<close>, the
  scope cursor \<open>selectedRestoreTypeIndex\<close>, the pending checkpoint
  \<open>selectedCheckpoint\<close>.\<close>

lemma checkpointList_cong:
  "chatMessages t = chatMessages s \<Longrightarrow> checkpointList rel t = checkpointList rel s"
  by (simp add: checkpointList_def)

lemma confirm_scope_cursor:
  "restoreTypeSelectionMode (snd (confirmCheckpointSelection rel t)) \<Longrightarrow>
   \<not> restoreTypeSelectionMode t \<Longrightarrow>
   selectedRestoreTypeIndex (snd (confirmCheckpointSelection rel t)) = 0"
  by (cases "currentSelectedCheckpoint rel t") (simp_all add: confirmCheckpointSelection_def)

lemma entry_into_scope_only_by_confirm:
  "\<not> restoreTypeSelectionMode t \<Longrightarrow> restoreTypeSelectionMode (dispatch rel a t) \<Longrightarrow>
   a = ConfirmCheckpointSelection"
  by (cases a)
     (simp_all add: enterCheckpointSelectionMode_def exitCheckpointSelectionMode_def
       backToCheckpointSelection_def navigateCheckpointUp_def navigateCheckpointDown_def
       navigateRestoreTypeUp_def navigateRestoreTypeDown_def recordEscPress_def
       resetEscPressTimer_def Let_def split: if_splits)

text \<open>
  Claim C3, as the code has it. The cancel transition from \<open>ChoosingScope\<close> back to
  \<open>ChoosingCheckpoint\<close> resets the scope cursor to 0 and leaves the checkpoint cursor
  and the pending checkpoint as they were. The only action that enters
  \<open>ChoosingScope\<close> is the confirm action, and the scope cursor is 0 after it: so the
  scope cursor is 0 on the next entry into \<open>ChoosingScope\<close>, from any state \<open>t\<close>
  reached in between.
\<close>

theorem backToCheckpointSelection_resets_scope_cursor:
  "selectedRestoreTypeIndex (backToCheckpointSelection s) = 0
   \<and> checkpointSelectionMode (backToCheckpointSelection s)
   \<and> \<not> restoreTypeSelectionMode (backToCheckpointSelection s)
   \<and> selectedCheckpointIndex (backToCheckpointSelection s) = selectedCheckpointIndex s
   \<and> selectedCheckpoint (backToCheckpointSelection s) = selectedCheckpoint s
   \<and> (\<not> restoreTypeSelectionMode t \<and> restoreTypeSelectionMode (dispatch rel a t)
        \<longrightarrow> a = ConfirmCheckpointSelection \<and> selectedRestoreTypeIndex (dispatch rel a t) = 0)"
proof -
  have "\<not> restoreTypeSelectionMode t \<and> restoreTypeSelectionMode (dispatch rel a t)
        \<longrightarrow> a = ConfirmCheckpointSelection \<and> selectedRestoreTypeIndex (dispatch rel a t) = 0"
  proof
    assume h: "\<not> restoreTypeSelectionMode t \<and> restoreTypeSelectionMode (dispatch rel a t)"
    then have a: "a = ConfirmCheckpointSelection"
      using entry_into_scope_only_by_confirm by blast
    with h have "selectedRestoreTypeIndex (dispatch rel a t) = 0"
      using confirm_scope_cursor [of rel t] by simp
    with a show "a = ConfirmCheckpointSelection \<and> selectedRestoreTypeIndex (dispatch rel a t) = 0"
      by simp
  qed
  then show ?thesis by (simp add: backToCheckpointSelection_def)
qed


text \<open>On the example log: the second scope is highlighted, the user goes back, moves
  the scope cursor while choosing a checkpoint, and confirms again.\<close>

theorem backToCheckpointSelection_resets_scope_cursor_witness:
  "restoreTypeSelectionMode
     (dispatchAll exampleRel
        [EnterCheckpointSelectionMode, NavigateCheckpointDown, ConfirmCheckpointSelection,
         NavigateRestoreTypeDown] (initialState exampleLog))
   \<and> selectedRestoreTypeIndex
     (dispatchAll exampleRel
        [EnterCheckpointSelectionMode, NavigateCheckpointDown, ConfirmCheckpointSelection,
         NavigateRestoreTypeDown] (initialState exampleLog)) = 1
   \<and> selectedRestoreTypeIndex
     (dispatchAll exampleRel
        [EnterCheckpointSelectionMode, NavigateCheckpointDown, ConfirmCheckpointSelection,
         NavigateRestoreTypeDown, BackToCheckpointSelection] (initialState exampleLog)) = 0
   \<and> selectedRestoreTypeIndex
     (dispatchAll exampleRel
        [EnterCheckpointSelectionMode, NavigateCheckpointDown, ConfirmCheckpointSelection,
         NavigateRestoreTypeDown, BackToCheckpointSelection, NavigateRestoreTypeDown,
         ConfirmCheckpointSelection] (initialState exampleLog)) = 0"
proof -
  let ?s = "dispatchAll exampleRel
        [EnterCheckpointSelectionMode, NavigateCheckpointDown, ConfirmCheckpointSelection,
         NavigateRestoreTypeDown] (initialState exampleLog)"
  let ?t = "dispatch exampleRel NavigateRestoreTypeDown (backToCheckpointSelection ?s)"
  have mode: "restoreTypeSelectionMode ?s" by code_simp
  have cur: "selectedRestoreTypeIndex ?s = 1" by code_simp
  have pre: "\<not> restoreTypeSelectionMode ?t" by code_simp
  have post: "restoreTypeSelectionMode (dispatch exampleRel ConfirmCheckpointSelection ?t)"
    by code_simp
  have run1: "dispatchAll exampleRel
        [EnterCheckpointSelectionMode, NavigateCheckpointDown, ConfirmCheckpointSelection,
         NavigateRestoreTypeDown, BackToCheckpointSelection] (initialState exampleLog)
      = backToCheckpointSelection ?s"
    by simp
  have run2: "dispatchAll exampleRel
        [EnterCheckpointSelectionMode, NavigateCheckpointDown, ConfirmCheckpointSelection,
         NavigateRestoreTypeDown, BackToCheckpointSelection, NavigateRestoreTypeDown,
         ConfirmCheckpointSelection] (initialState exampleLog)
      = dispatch exampleRel ConfirmCheckpointSelection ?t"
    by simp
  from backToCheckpointSelection_resets_scope_cursor
         [of ?s ?t exampleRel ConfirmCheckpointSelection] pre post
  have "selectedRestoreTypeIndex (backToCheckpointSelection ?s) = 0"
    and "selectedRestoreTypeIndex (dispatch exampleRel ConfirmCheckpointSelection ?t) = 0"
    by blast+
  with mode cur show ?thesis
    by (simp only: run1 run2) 
qed

text \<open>Claim C3 as stated fails for the cursor of the list the user returns to: with the
  third checkpoint confirmed, going back leaves the checkpoint cursor on index 2, not
  on 0.\<close>

theorem backToCheckpointSelection_keeps_checkpoint_cursor_counterexample:
  "restoreTypeSelectionMode
     (dispatchAll exampleRel
        [EnterCheckpointSelectionMode, NavigateCheckpointDown, NavigateCheckpointDown,
         ConfirmCheckpointSelection] (initialState exampleLog))
   \<and> checkpointSelectionMode
     (dispatchAll exampleRel
        [EnterCheckpointSelectionMode, NavigateCheckpointDown, NavigateCheckpointDown,
         ConfirmCheckpointSelection, BackToCheckpointSelection] (initialState exampleLog))
   \<and> selectedCheckpointIndex
     (dispatchAll exampleRel
        [EnterCheckpointSelectionMode, NavigateCheckpointDown, NavigateCheckpointDown,
         ConfirmCheckpointSelection, BackToCheckpointSelection] (initialState exampleLog)) \<noteq> 0"
  by code_simp






text \<open>
  Claim C5. When the checkpoint list is empty, \<open>enterCheckpointSelectionMode\<close> returns
  false and leaves the whole state as it was: from \<open>Idle\<close> the machine stays in
  \<open>Idle\<close>, and no atom is modified. The checkpoint cursor is not read: with any other
  value \<open>c\<close> in its place the action returns the same and again changes nothing.
\<close>

theorem enterCheckpointSelectionMode_without_checkpoints:
  assumes "checkpointList rel s = []"
  shows "enterCheckpointSelectionMode rel s = (False, s)
    \<and> enterCheckpointSelectionMode rel (s\<lparr>selectedCheckpointIndex := c\<rparr>)
        = (False, s\<lparr>selectedCheckpointIndex := c\<rparr>)"
proof -
  have "checkpointList rel (s\<lparr>selectedCheckpointIndex := c\<rparr>) = checkpointList rel s"
    by (rule checkpointList_cong) simp
  with assms show ?thesis
    by (simp add: enterCheckpointSelectionMode_def hasCheckpoints_def)
qed

text \<open>A log with a user message and no checkpoint marker.\<close>

theorem enterCheckpointSelectionMode_without_checkpoints_witness:
  "checkpointList exampleRel (initialState [sayMessage 5 ''user_feedback'' ''fix the bug'']) = []
   \<and> enterCheckpointSelectionMode exampleRel
        (initialState [sayMessage 5 ''user_feedback'' ''fix the bug''])
      = (False, initialState [sayMessage 5 ''user_feedback'' ''fix the bug''])
   \<and> \<not> checkpointSelectionMode (snd (enterCheckpointSelectionMode exampleRel
        (initialState [sayMessage 5 ''user_feedback'' ''fix the bug''])))
   \<and> \<not> restoreTypeSelectionMode (snd (enterCheckpointSelectionMode exampleRel
        (initialState [sayMessage 5 ''user_feedback'' ''fix the bug''])))"
proof -
  let ?s = "initialState [sayMessage 5 ''user_feedback'' ''fix the bug'']"
  have h: "checkpointList exampleRel ?s = []" by code_simp
  from enterCheckpointSelectionMode_without_checkpoints [OF h]
  have e: "enterCheckpointSelectionMode exampleRel ?s = (False, ?s)" by blast
  have "\<not> checkpointSelectionMode ?s" "\<not> restoreTypeSelectionMode ?s"
    by (simp_all add: initialState_def)
  with h e show ?thesis by simp
qed

lemma dispatch_keeps_pending:
  "a \<notin> {EnterCheckpointSelectionMode, ExitCheckpointSelectionMode, ConfirmCheckpointSelection}
   \<Longrightarrow> selectedCheckpoint (dispatch rel a t) = selectedCheckpoint t"
  by (cases a)
     (simp_all add: backToCheckpointSelection_def navigateCheckpointUp_def
       navigateCheckpointDown_def navigateRestoreTypeUp_def navigateRestoreTypeDown_def
       recordEscPress_def resetEscPressTimer_def Let_def)

lemma dispatchAll_keeps_pending:
  "set as \<inter> {EnterCheckpointSelectionMode, ExitCheckpointSelectionMode,
              ConfirmCheckpointSelection} = {}
   \<Longrightarrow> selectedCheckpoint (dispatchAll rel as t) = selectedCheckpoint t"
proof (induction as arbitrary: t)
  case Nil
  show ?case by simp
next
  case (Cons a as)
  from Cons.prems have a: "a \<notin> {EnterCheckpointSelectionMode, ExitCheckpointSelectionMode,
              ConfirmCheckpointSelection}"
    and rest: "set as \<inter> {EnterCheckpointSelectionMode, ExitCheckpointSelectionMode,
              ConfirmCheckpointSelection} = {}"
    by auto
  from Cons.IH [OF rest, of "dispatch rel a t"] dispatch_keeps_pending [OF a, of rel t]
  show ?case by simp
qed

lemma currentSelectedCheckpoint_in_range:
  "0 \<le> selectedCheckpointIndex s \<Longrightarrow>
   selectedCheckpointIndex s < int (length (checkpointList rel s)) \<Longrightarrow>
   currentSelectedCheckpoint rel s = Some (checkpointList rel s ! nat (selectedCheckpointIndex s))"
  by (simp add: currentSelectedCheckpoint_def Let_def)

text \<open>
  Claim C6. With the checkpoint cursor in the range of a (then non-empty) checkpoint
  list, the confirm action returns true, enters \<open>ChoosingScope\<close>, sets the scope cursor
  to 0 and stores as pending checkpoint exactly the record at the cursor index of the
  list as it is at that moment. The pending checkpoint is a value of its own: replacing
  the chat messages afterwards (and with them the derived checkpoint list, under any
  clock) leaves it as it was, and so does every later sequence of actions other than
  enter, exit and confirm.
\<close>

theorem confirmCheckpointSelection_freezes_pending:
  assumes "0 \<le> selectedCheckpointIndex s"
    and "selectedCheckpointIndex s < int (length (checkpointList rel s))"
  shows "fst (confirmCheckpointSelection rel s)
    \<and> restoreTypeSelectionMode (snd (confirmCheckpointSelection rel s))
    \<and> \<not> checkpointSelectionMode (snd (confirmCheckpointSelection rel s))
    \<and> selectedRestoreTypeIndex (snd (confirmCheckpointSelection rel s)) = 0
    \<and> selectedCheckpoint (snd (confirmCheckpointSelection rel s))
        = Some (checkpointList rel s ! nat (selectedCheckpointIndex s))
    \<and> selectedCheckpoint ((snd (confirmCheckpointSelection rel s))\<lparr>chatMessages := msgs'\<rparr>)
        = Some (checkpointList rel s ! nat (selectedCheckpointIndex s))
    \<and> (set as \<inter> {EnterCheckpointSelectionMode, ExitCheckpointSelectionMode,
                   ConfirmCheckpointSelection} = {} \<longrightarrow>
        selectedCheckpoint
          (dispatchAll rel' as ((snd (confirmCheckpointSelection rel s))\<lparr>chatMessages := msgs'\<rparr>))
        = Some (checkpointList rel s ! nat (selectedCheckpointIndex s)))"
proof -
  let ?c = "checkpointList rel s ! nat (selectedCheckpointIndex s)"
  let ?s' = "s\<lparr>selectedCheckpoint := Some ?c, checkpointSelectionMode := False,
               restoreTypeSelectionMode := True, selectedRestoreTypeIndex := 0\<rparr>"
  have conf: "confirmCheckpointSelection rel s = (True, ?s')"
    using currentSelectedCheckpoint_in_range [OF assms]
    by (simp add: confirmCheckpointSelection_def)
  have later: "set as \<inter> {EnterCheckpointSelectionMode, ExitCheckpointSelectionMode,
                   ConfirmCheckpointSelection} = {} \<longrightarrow>
        selectedCheckpoint (dispatchAll rel' as (?s'\<lparr>chatMessages := msgs'\<rparr>)) = Some ?c"
    using dispatchAll_keeps_pending [of as rel' "?s'\<lparr>chatMessages := msgs'\<rparr>"] by simp
  from later show ?thesis by (simp add: conf)
qed

text \<open>On the example log the list is \<open>CCC, BBB, AAA\<close>; confirming on index 1 freezes
  \<open>BBB\<close>, also after the log has been emptied and the cursors moved.\<close>

theorem confirmCheckpointSelection_freezes_pending_witness:
  "map_option commitHash (selectedCheckpoint
     (dispatchAll exampleRel [EnterCheckpointSelectionMode, NavigateCheckpointDown,
        ConfirmCheckpointSelection] (initialState exampleLog))) = Some ''BBB''
   \<and> selectedRestoreTypeIndex
     (dispatchAll exampleRel [EnterCheckpointSelectionMode, NavigateCheckpointDown,
        ConfirmCheckpointSelection] (initialState exampleLog)) = 0
   \<and> map_option commitHash (selectedCheckpoint
     (dispatchAll exampleRel [NavigateRestoreTypeDown, BackToCheckpointSelection, NavigateCheckpointUp]
       ((dispatchAll exampleRel [EnterCheckpointSelectionMode, NavigateCheckpointDown,
           ConfirmCheckpointSelection] (initialState exampleLog))\<lparr>chatMessages := []\<rparr>)))
     = Some ''BBB''"
proof -
  let ?s = "dispatchAll exampleRel [EnterCheckpointSelectionMode, NavigateCheckpointDown]
              (initialState exampleLog)"
  let ?as = "[NavigateRestoreTypeDown, BackToCheckpointSelection, NavigateCheckpointUp]"
  have lo: "0 \<le> selectedCheckpointIndex ?s" by code_simp
  have hi: "selectedCheckpointIndex ?s < int (length (checkpointList exampleRel ?s))"
    by code_simp
  have as: "set ?as \<inter> {EnterCheckpointSelectionMode, ExitCheckpointSelectionMode,
                   ConfirmCheckpointSelection} = {}"
    by simp
  have hash: "commitHash (checkpointList exampleRel ?s ! nat (selectedCheckpointIndex ?s)) = ''BBB''"
    by code_simp
  have run: "dispatchAll exampleRel [EnterCheckpointSelectionMode, NavigateCheckpointDown,
        ConfirmCheckpointSelection] (initialState exampleLog)
      = snd (confirmCheckpointSelection exampleRel ?s)"
    by simp
  from confirmCheckpointSelection_freezes_pending [OF lo hi, of "[]" ?as exampleRel] as
  have "selectedCheckpoint (snd (confirmCheckpointSelection exampleRel ?s))
          = Some (checkpointList exampleRel ?s ! nat (selectedCheckpointIndex ?s))"
    and "selectedRestoreTypeIndex (snd (confirmCheckpointSelection exampleRel ?s)) = 0"
    and "selectedCheckpoint
          (dispatchAll exampleRel ?as
             ((snd (confirmCheckpointSelection exampleRel ?s))\<lparr>chatMessages := []\<rparr>))
          = Some (checkpointList exampleRel ?s ! nat (selectedCheckpointIndex ?s))"
    by blast+
  with hash show ?thesis
    by (simp only: run option.map)
qed

lemma js_rem_nonneg: "0 \<le> a \<Longrightarrow> 0 < b \<Longrightarrow> js_rem a b = a mod b"
  by (cases "a = 0") (simp_all add: js_rem_def)

lemma navigateCheckpointUp_index:
  "checkpointCount rel s \<noteq> 0 \<Longrightarrow>
   selectedCheckpointIndex (navigateCheckpointUp rel s) =
     (if selectedCheckpointIndex s = 0 then checkpointCount rel s - 1
      else selectedCheckpointIndex s - 1)"
  by (simp add: navigateCheckpointUp_def Let_def)

lemma navigateCheckpointDown_index:
  "checkpointCount rel s \<noteq> 0 \<Longrightarrow>
   selectedCheckpointIndex (navigateCheckpointDown rel s) =
     js_rem (selectedCheckpointIndex s + 1) (checkpointCount rel s)"
  by (simp add: navigateCheckpointDown_def Let_def)

lemma navigateRestoreTypeUp_index:
  "selectedRestoreTypeIndex (navigateRestoreTypeUp s) =
     (if selectedRestoreTypeIndex s = 0 then 2 else selectedRestoreTypeIndex s - 1)"
  by (simp add: navigateRestoreTypeUp_def RESTORE_TYPE_OPTIONS_def Let_def)

lemma navigateRestoreTypeDown_index:
  "selectedRestoreTypeIndex (navigateRestoreTypeDown s) =
     js_rem (selectedRestoreTypeIndex s + 1) 3"
  by (simp add: navigateRestoreTypeDown_def RESTORE_TYPE_OPTIONS_def Let_def)

lemma wrap_up: "0 \<le> i \<Longrightarrow> i < n \<Longrightarrow> (if i = 0 then n - 1 else i - 1) = (i - 1) mod (n::int)"
  by (cases "i = 0") (simp_all add: zmod_minus1)

text \<open>
  Claim C7. Navigation wraps modulo the length of the list. In the checkpoint list of
  length \<open>n \<ge> 1\<close>: up from index 0 lands on \<open>n - 1\<close>, down from \<open>n - 1\<close> lands on 0,
  and from every index in range up is \<open>(i - 1) mod n\<close> and down is \<open>(i + 1) mod n\<close>;
  with a single item both directions stay on 0. In the list of the three restore
  types: up from 0 lands on 2, down from 2 lands on 0, and from every index in range
  up is \<open>(i - 1) mod 3\<close> and down is \<open>(i + 1) mod 3\<close>.
\<close>

theorem navigation_wraps:
  "(1 \<le> checkpointCount rel s \<and> selectedCheckpointIndex s = 0 \<longrightarrow>
      selectedCheckpointIndex (navigateCheckpointUp rel s) = checkpointCount rel s - 1)
   \<and> (1 \<le> checkpointCount rel s \<and> selectedCheckpointIndex s = checkpointCount rel s - 1 \<longrightarrow>
      selectedCheckpointIndex (navigateCheckpointDown rel s) = 0)
   \<and> (0 \<le> selectedCheckpointIndex s \<and> selectedCheckpointIndex s < checkpointCount rel s \<longrightarrow>
      selectedCheckpointIndex (navigateCheckpointUp rel s)
        = (selectedCheckpointIndex s - 1) mod checkpointCount rel s
      \<and> selectedCheckpointIndex (navigateCheckpointDown rel s)
        = (selectedCheckpointIndex s + 1) mod checkpointCount rel s)
   \<and> (checkpointCount rel s = 1 \<and> selectedCheckpointIndex s = 0 \<longrightarrow>
      selectedCheckpointIndex (navigateCheckpointUp rel s) = 0
      \<and> selectedCheckpointIndex (navigateCheckpointDown rel s) = 0)
   \<and> (selectedRestoreTypeIndex s = 0 \<longrightarrow>
      selectedRestoreTypeIndex (navigateRestoreTypeUp s) = int (length RESTORE_TYPE_OPTIONS) - 1)
   \<and> (selectedRestoreTypeIndex s = int (length RESTORE_TYPE_OPTIONS) - 1 \<longrightarrow>
      selectedRestoreTypeIndex (navigateRestoreTypeDown s) = 0)
   \<and> (0 \<le> selectedRestoreTypeIndex s
       \<and> selectedRestoreTypeIndex s < int (length RESTORE_TYPE_OPTIONS) \<longrightarrow>
      selectedRestoreTypeIndex (navigateRestoreTypeUp s)
        = (selectedRestoreTypeIndex s - 1) mod int (length RESTORE_TYPE_OPTIONS)
      \<and> selectedRestoreTypeIndex (navigateRestoreTypeDown s)
        = (selectedRestoreTypeIndex s + 1) mod int (length RESTORE_TYPE_OPTIONS))"
proof -
  let ?n = "checkpointCount rel s" and ?i = "selectedCheckpointIndex s"
  let ?j = "selectedRestoreTypeIndex s"
  have three: "int (length RESTORE_TYPE_OPTIONS) = 3"
    by (simp add: RESTORE_TYPE_OPTIONS_def)
  have up0: "1 \<le> ?n \<and> ?i = 0 \<longrightarrow>
      selectedCheckpointIndex (navigateCheckpointUp rel s) = ?n - 1"
    by (simp add: navigateCheckpointUp_index)
  have down_last: "1 \<le> ?n \<and> ?i = ?n - 1 \<longrightarrow>
      selectedCheckpointIndex (navigateCheckpointDown rel s) = 0"
    by (simp add: navigateCheckpointDown_index js_rem_nonneg)
  have in_range: "0 \<le> ?i \<and> ?i < ?n \<longrightarrow>
      selectedCheckpointIndex (navigateCheckpointUp rel s) = (?i - 1) mod ?n
      \<and> selectedCheckpointIndex (navigateCheckpointDown rel s) = (?i + 1) mod ?n"
  proof
    assume r: "0 \<le> ?i \<and> ?i < ?n"
    then have n: "?n \<noteq> 0" "0 < ?n" "0 \<le> ?i + 1" by linarith+
    from r have "selectedCheckpointIndex (navigateCheckpointUp rel s) = (?i - 1) mod ?n"
      using wrap_up [of ?i ?n] by (simp add: navigateCheckpointUp_index [OF n(1)])
    moreover have "selectedCheckpointIndex (navigateCheckpointDown rel s) = (?i + 1) mod ?n"
      by (simp only: navigateCheckpointDown_index [OF n(1)] js_rem_nonneg [OF n(3) n(2)])
    ultimately show "selectedCheckpointIndex (navigateCheckpointUp rel s) = (?i - 1) mod ?n
      \<and> selectedCheckpointIndex (navigateCheckpointDown rel s) = (?i + 1) mod ?n"
      by simp
  qed
  have single: "?n = 1 \<and> ?i = 0 \<longrightarrow>
      selectedCheckpointIndex (navigateCheckpointUp rel s) = 0
      \<and> selectedCheckpointIndex (navigateCheckpointDown rel s) = 0"
    by (simp add: navigateCheckpointUp_index navigateCheckpointDown_index js_rem_def)
  have rt_up0: "?j = 0 \<longrightarrow> selectedRestoreTypeIndex (navigateRestoreTypeUp s) = 3 - 1"
    by (simp add: navigateRestoreTypeUp_index)
  have rt_down_last: "?j = 3 - 1 \<longrightarrow> selectedRestoreTypeIndex (navigateRestoreTypeDown s) = 0"
    by (simp add: navigateRestoreTypeDown_index js_rem_def)
  have rt_in_range: "0 \<le> ?j \<and> ?j < 3 \<longrightarrow>
      selectedRestoreTypeIndex (navigateRestoreTypeUp s) = (?j - 1) mod 3
      \<and> selectedRestoreTypeIndex (navigateRestoreTypeDown s) = (?j + 1) mod 3"
  proof
    assume r: "0 \<le> ?j \<and> ?j < 3"
    then have "selectedRestoreTypeIndex (navigateRestoreTypeUp s) = (?j - 1) mod 3"
      using wrap_up [of ?j 3] by (simp add: navigateRestoreTypeUp_index)
    moreover from r have "selectedRestoreTypeIndex (navigateRestoreTypeDown s) = (?j + 1) mod 3"
      by (simp add: navigateRestoreTypeDown_index js_rem_nonneg)
    ultimately show "selectedRestoreTypeIndex (navigateRestoreTypeUp s) = (?j - 1) mod 3
      \<and> selectedRestoreTypeIndex (navigateRestoreTypeDown s) = (?j + 1) mod 3"
      by simp
  qed
  from up0 down_last in_range single rt_up0 rt_down_last rt_in_range show ?thesis
    by (simp only: three) 
qed

text \<open>On the example log (three checkpoints): up from 0 and down again, in both lists.\<close>

theorem navigation_wraps_witness:
  "checkpointCount exampleRel (initialState exampleLog) = 3
   \<and> selectedCheckpointIndex (navigateCheckpointUp exampleRel (initialState exampleLog)) = 2
   \<and> selectedCheckpointIndex
       (navigateCheckpointDown exampleRel
          (navigateCheckpointUp exampleRel (initialState exampleLog))) = 0
   \<and> selectedRestoreTypeIndex (navigateRestoreTypeUp (initialState exampleLog)) = 2
   \<and> selectedRestoreTypeIndex
       (navigateRestoreTypeDown (navigateRestoreTypeUp (initialState exampleLog))) = 0"
proof -
  let ?s = "initialState exampleLog"
  let ?u = "navigateCheckpointUp exampleRel ?s"
  let ?r = "navigateRestoreTypeUp ?s"
  have n: "checkpointCount exampleRel ?s = 3" by code_simp
  have nu: "checkpointCount exampleRel ?u = 3" by code_simp
  have i: "selectedCheckpointIndex ?s = 0" by (simp add: initialState_def)
  have j: "selectedRestoreTypeIndex ?s = 0" by (simp add: initialState_def)
  have three: "int (length RESTORE_TYPE_OPTIONS) = 3"
    by (simp add: RESTORE_TYPE_OPTIONS_def)
  from navigation_wraps [of exampleRel ?s] n i j three
  have up: "selectedCheckpointIndex ?u = 2" and rup: "selectedRestoreTypeIndex ?r = 2"
    by simp_all
  from navigation_wraps [of exampleRel ?u] nu up
  have down: "selectedCheckpointIndex (navigateCheckpointDown exampleRel ?u) = 0"
    by simp
  from navigation_wraps [of exampleRel ?r] rup three
  have rdown: "selectedRestoreTypeIndex (navigateRestoreTypeDown ?r) = 0"
    by simp
  from n up down rup rdown show ?thesis by simp
qed

section \<open>The checkpoint ledger: the preview of the preceding user message\<close>

lemma truncateText_50:
  "truncateText text 50 = (if length text \<le> 50 then text else take 47 text @ ''...'')"
  by (simp add: truncateText_def slice0_def Let_def)

lemma truncateText_50_length: "length (truncateText text 50) \<le> 50"
  by (simp add: truncateText_50)

lemma findPrecedingFrom_find:
  "findPrecedingFrom ms beforeTs =
     (case find (stopsAt beforeTs) ms of
        None \<Rightarrow> None
      | Some m \<Rightarrow> map_option (\<lambda>text. truncateText (trim text) 50) (m_text m))"
proof (induction ms)
  case Nil
  show ?case by simp
next
  case (Cons msg earlier)
  show ?case
  proof (cases "stopsAt beforeTs msg")
    case True
    then obtain str where "m_text msg = Some str"
      by (cases "m_text msg") (simp_all add: stopsAt_def)
    with True show ?thesis by (simp add: stopsAt_def)
  next
    case False
    with Cons show ?thesis by (auto simp: stopsAt_def split: option.splits)
  qed
qed

lemma findPrecedingUserMessage_None:
  "findPrecedingUserMessage messages beforeTs = None
     \<longleftrightarrow> (\<forall>m \<in> set messages. \<not> stopsAt beforeTs m)"
proof (cases "find (stopsAt beforeTs) (rev messages)")
  case None
  then have "\<forall>m \<in> set messages. \<not> stopsAt beforeTs m"
    by (auto simp: find_None_iff)
  with None show ?thesis
    by (simp add: findPrecedingUserMessage_def findPrecedingFrom_find)
next
  case (Some m)
  then have "m \<in> set (rev messages)" and sm: "stopsAt beforeTs m"
    by (metis find_Some_iff nth_mem)+
  then have m: "m \<in> set messages" "stopsAt beforeTs m"
    by simp_all
  then obtain str where "m_text m = Some str"
    by (cases "m_text m") (simp_all add: stopsAt_def)
  with Some m show ?thesis
    by (auto simp: findPrecedingUserMessage_def findPrecedingFrom_find)
qed

lemma findPrecedingUserMessage_Some:
  assumes "findPrecedingUserMessage messages beforeTs = Some preview"
  shows "\<exists>m text. find (stopsAt beforeTs) (rev messages) = Some m \<and> m_text m = Some text
           \<and> preview = truncateText (trim text) 50"
proof (cases "find (stopsAt beforeTs) (rev messages)")
  case None
  with assms show ?thesis
    by (simp add: findPrecedingUserMessage_def findPrecedingFrom_find)
next
  case (Some m)
  with assms show ?thesis
    by (cases "m_text m") (simp_all add: findPrecedingUserMessage_def findPrecedingFrom_find)
qed

lemma checkpointList_preview:
  assumes "c \<in> set (checkpointList rel s)"
  shows "userMessagePreview c = findPrecedingUserMessage (chatMessages s) (ts c)"
proof -
  from assms obtain msg where "msg \<in> set (chatMessages s)"
    and "extractCheckpointInfo rel msg (chatMessages s) = Some c"
    by (auto simp: checkpointList_def List.map_filter_def)
  then show ?thesis
    by (auto simp: extractCheckpointInfo_def split: if_splits option.splits)
qed

text \<open>
  Claim C8, as the code has it, for every record \<open>c\<close> of the checkpoint list of a log.
  When no \<open>user_feedback\<close> message has a strictly earlier timestamp, the preview is
  null. More exactly, the preview is null exactly when no message with a strictly
  earlier timestamp is a \<open>user_feedback\<close> message with a text that is present and not
  empty. Otherwise the preview comes from the last such message in log order: it is
  that message's text with the surrounding white space trimmed when the trimmed text
  has at most 50 characters, and the first 47 characters of the trimmed text followed
  by the three-character ellipsis \<open>...\<close> when the trimmed text is longer. The length of
  a preview never exceeds 50.
\<close>

theorem precedingUserMessagePreview_bounded:
  assumes "c \<in> set (checkpointList rel s)"
  shows "((\<forall>m \<in> set (chatMessages s).
            \<not> (m_ts m < ts c \<and> m_type m = ''say'' \<and> m_say m = Some ''user_feedback''))
          \<longrightarrow> userMessagePreview c = None)
    \<and> (userMessagePreview c = None \<longleftrightarrow> (\<forall>m \<in> set (chatMessages s). \<not> stopsAt (ts c) m))
    \<and> (\<forall>preview. userMessagePreview c = Some preview \<longrightarrow>
          length preview \<le> 50
          \<and> (\<exists>m text. find (stopsAt (ts c)) (rev (chatMessages s)) = Some m
                \<and> m_text m = Some text
                \<and> preview = (if length (trim text) \<le> 50 then trim text
                              else take 47 (trim text) @ ''...'')))"
proof -
  let ?p = "findPrecedingUserMessage (chatMessages s) (ts c)"
  have eq: "userMessagePreview c = ?p"
    by (rule checkpointList_preview [OF assms])
  have none: "?p = None \<longleftrightarrow> (\<forall>m \<in> set (chatMessages s). \<not> stopsAt (ts c) m)"
    by (rule findPrecedingUserMessage_None)
  have first: "(\<forall>m \<in> set (chatMessages s).
            \<not> (m_ts m < ts c \<and> m_type m = ''say'' \<and> m_say m = Some ''user_feedback''))
          \<longrightarrow> ?p = None"
    unfolding none by (auto simp: stopsAt_def)
  have some: "\<forall>preview. ?p = Some preview \<longrightarrow>
          length preview \<le> 50
          \<and> (\<exists>m text. find (stopsAt (ts c)) (rev (chatMessages s)) = Some m
                \<and> m_text m = Some text
                \<and> preview = (if length (trim text) \<le> 50 then trim text
                              else take 47 (trim text) @ ''...''))"
  proof (intro allI impI)
    fix preview assume "?p = Some preview"
    from findPrecedingUserMessage_Some [OF this]
    obtain m str where f: "find (stopsAt (ts c)) (rev (chatMessages s)) = Some m"
      and t: "m_text m = Some str" and p: "preview = truncateText (trim str) 50"
      by blast
    from p have "length preview \<le> 50" by (simp add: truncateText_50_length)
    moreover from p have "preview = (if length (trim str) \<le> 50 then trim str
                              else take 47 (trim str) @ ''...'')"
      by (simp only: truncateText_50)
    ultimately show "length preview \<le> 50
          \<and> (\<exists>m text. find (stopsAt (ts c)) (rev (chatMessages s)) = Some m
                \<and> m_text m = Some text
                \<and> preview = (if length (trim text) \<le> 50 then trim text
                              else take 47 (trim text) @ ''...''))"
      using f t by blast
  qed
  from first none some show ?thesis by (simp only: eq) 
qed

text \<open>The record of the marker at \<open>t = 10\<close> of the example log, after the user message
  at \<open>t = 5\<close>.\<close>

theorem precedingUserMessagePreview_bounded_witness:
  "\<lparr>ts = 10, commitHash = ''AAA'', isAutoSaved = False, relativeTime = ''1 minute ago'',
     userMessagePreview = Some ''fix the bug''\<rparr>
     \<in> set (checkpointList exampleRel (initialState exampleLog))
   \<and> length ''fix the bug'' \<le> 50
   \<and> (\<exists>m str. find (stopsAt 10) (rev (chatMessages (initialState exampleLog))) = Some m
         \<and> m_text m = Some str
         \<and> ''fix the bug'' = (if length (trim str) \<le> 50 then trim str
                               else take 47 (trim str) @ ''...''))"
proof -
  let ?c = "\<lparr>ts = 10, commitHash = ''AAA'', isAutoSaved = False,
              relativeTime = ''1 minute ago'', userMessagePreview = Some ''fix the bug''\<rparr>"
  have "checkpointList exampleRel (initialState exampleLog) ! 2 = ?c" by code_simp
  moreover have "length (checkpointList exampleRel (initialState exampleLog)) = 3"
    by code_simp
  ultimately have mem: "?c \<in> set (checkpointList exampleRel (initialState exampleLog))"
    using nth_mem [of 2 "checkpointList exampleRel (initialState exampleLog)"] by simp
  from precedingUserMessagePreview_bounded [OF mem] mem show ?thesis
    by simp
qed

text \<open>Claim C8 as stated fails for a text of 51 characters that ends with a space: the
  original text exceeds the bound, yet the preview is the 50 trimmed characters with no
  ellipsis, and not the truncation of the original text.\<close>

theorem precedingUserMessagePreview_trim_counterexample:
  "length (replicate 50 (CHR ''a'') @ '' '') > 50
   \<and> map userMessagePreview
       (checkpointList exampleRel
          (initialState [sayMessage 1 ''user_feedback'' (replicate 50 (CHR ''a'') @ '' ''),
                         sayMessage 2 ''checkpoint_saved'' ''AAA'']))
     = [Some (replicate 50 (CHR ''a''))]
   \<and> map userMessagePreview
       (checkpointList exampleRel
          (initialState [sayMessage 1 ''user_feedback'' (replicate 50 (CHR ''a'') @ '' ''),
                         sayMessage 2 ''checkpoint_saved'' ''AAA'']))
     \<noteq> [Some (truncateText (replicate 50 (CHR ''a'') @ '' '') 50)]"
proof -
  have len: "length (replicate 50 (CHR ''a'') @ '' '') > 50" by simp
  have code: "map userMessagePreview
       (checkpointList exampleRel
          (initialState [sayMessage 1 ''user_feedback'' (replicate 50 (CHR ''a'') @ '' ''),
                         sayMessage 2 ''checkpoint_saved'' ''AAA'']))
     = [Some (replicate 50 (CHR ''a''))]"
    by code_simp
  have claimed: "truncateText (replicate 50 (CHR ''a'') @ '' '') 50
      = replicate 47 (CHR ''a'') @ ''...''"
    by code_simp
  have differ: "replicate 50 (CHR ''a'') \<noteq> replicate 47 (CHR ''a'') @ ''...''"
    by code_simp
  from len code claimed differ show ?thesis by simp
qed

section \<open>The manage_tabs tool: validation\<close>

lemma manageTabsTool_invalid:
  assumes "\<not> block_partial block"
    and "\<not> truthy (p_action block) \<or> p_action block \<notin> {Some ''open'', Some ''close''}
       \<or> (p_action block = Some ''open'' \<and> \<not> truthy (p_file block) \<and> \<not> truthy (p_files block))
       \<or> (p_action block = Some ''close'' \<and> \<not> truthy (p_file block))"
  shows "task_after (manageTabsTool rct task block) = mistake task
    \<and> handled (manageTabsTool rct task block) = None
    \<and> asked (manageTabsTool rct task block) = []
    \<and> pushed (manageTabsTool rct task block) \<in>
        {[MissingParamError ''manage_tabs'' ''action''],
         [Translated ''kilocode:manageTabs.errors.openRequiresFile''],
         [MissingParamError ''manage_tabs'' ''file'']}"
  using assms by (auto simp: manageTabsTool_def Let_def)

lemma manageTabsTool_valid:
  assumes "\<not> block_partial block"
    and "\<not> (\<not> truthy (p_action block) \<or> p_action block \<notin> {Some ''open'', Some ''close''}
       \<or> (p_action block = Some ''open'' \<and> \<not> truthy (p_file block) \<and> \<not> truthy (p_files block))
       \<or> (p_action block = Some ''close'' \<and> \<not> truthy (p_file block)))"
  shows "task_after (manageTabsTool rct task block) = task\<lparr>consecutiveMistakeCount := 0\<rparr>
    \<and> handled (manageTabsTool rct task block) \<noteq> None
    \<and> pushed (manageTabsTool rct task block) = []"
proof (cases "p_action block = Some ''open''")
  case True
  with assms show ?thesis by (simp add: manageTabsTool_def Let_def)
next
  case False
  with assms have close: "p_action block = Some ''close''" "truthy (p_file block)" by auto
  then obtain f where "p_file block = Some f" by (cases "p_file block") simp_all
  with assms close False show ?thesis by (simp add: manageTabsTool_def Let_def)
qed

text \<open>
  Claim C9. For every invocation that is not partial: when validation fails (the action
  is missing or is neither \<open>open\<close> nor \<open>close\<close>, or the action is \<open>open\<close> with neither a
  file nor a list of files, or the action is \<open>close\<close> without a file), the
  consecutive-mistake counter goes up by one, the tool error is recorded, exactly one
  error result is pushed and no handler is called; when validation succeeds the counter
  is set to 0 and the handler of the action is called. So the counter is 0 after the
  call only when validation has succeeded.
\<close>

theorem manageTabsTool_validation_error:
  assumes "\<not> block_partial block"
  shows "((\<not> truthy (p_action block) \<or> p_action block \<notin> {Some ''open'', Some ''close''}
       \<or> (p_action block = Some ''open'' \<and> \<not> truthy (p_file block) \<and> \<not> truthy (p_files block))
       \<or> (p_action block = Some ''close'' \<and> \<not> truthy (p_file block)))
      \<longrightarrow> consecutiveMistakeCount (task_after (manageTabsTool rct task block))
            = consecutiveMistakeCount task + 1
        \<and> toolErrors (task_after (manageTabsTool rct task block))
            = toolErrors task @ [''manage_tabs'']
        \<and> pushed (manageTabsTool rct task block) \<in>
            {[MissingParamError ''manage_tabs'' ''action''],
             [Translated ''kilocode:manageTabs.errors.openRequiresFile''],
             [MissingParamError ''manage_tabs'' ''file'']}
        \<and> handled (manageTabsTool rct task block) = None)
    \<and> (\<not> (\<not> truthy (p_action block) \<or> p_action block \<notin> {Some ''open'', Some ''close''}
       \<or> (p_action block = Some ''open'' \<and> \<not> truthy (p_file block) \<and> \<not> truthy (p_files block))
       \<or> (p_action block = Some ''close'' \<and> \<not> truthy (p_file block)))
      \<longrightarrow> consecutiveMistakeCount (task_after (manageTabsTool rct task block)) = 0
        \<and> pushed (manageTabsTool rct task block) = []
        \<and> handled (manageTabsTool rct task block) \<noteq> None)
    \<and> (consecutiveMistakeCount (task_after (manageTabsTool rct task block)) = 0
      \<longrightarrow> \<not> (\<not> truthy (p_action block) \<or> p_action block \<notin> {Some ''open'', Some ''close''}
       \<or> (p_action block = Some ''open'' \<and> \<not> truthy (p_file block) \<and> \<not> truthy (p_files block))
       \<or> (p_action block = Some ''close'' \<and> \<not> truthy (p_file block))))"
proof -
  let ?invalid = "\<not> truthy (p_action block) \<or> p_action block \<notin> {Some ''open'', Some ''close''}
       \<or> (p_action block = Some ''open'' \<and> \<not> truthy (p_file block) \<and> \<not> truthy (p_files block))
       \<or> (p_action block = Some ''close'' \<and> \<not> truthy (p_file block))"
  let ?r = "manageTabsTool rct task block"
  show ?thesis
  proof (cases ?invalid)
    case True
    from manageTabsTool_invalid [OF assms True, of rct task]
    have "task_after ?r = mistake task" "handled ?r = None"
      "pushed ?r \<in> {[MissingParamError ''manage_tabs'' ''action''],
             [Translated ''kilocode:manageTabs.errors.openRequiresFile''],
             [MissingParamError ''manage_tabs'' ''file'']}"
      by blast+
    with True show ?thesis by (simp add: mistake_def)
  next
    case False
    from manageTabsTool_valid [OF assms False, of rct task]
    have "task_after ?r = task\<lparr>consecutiveMistakeCount := 0\<rparr>" "handled ?r \<noteq> None"
      "pushed ?r = []"
      by blast+
    with False show ?thesis by simp
  qed
qed

text \<open>A \<open>close\<close> without a file after two earlier mistakes, and a well-formed
  \<open>open\<close>.\<close>

theorem manageTabsTool_validation_error_witness:
  "\<not> block_partial \<lparr>p_action = Some ''close'', p_file = None, p_files = None,
                     block_partial = False\<rparr>
   \<and> consecutiveMistakeCount (task_after (manageTabsTool (\<lambda>tag v. [])
        \<lparr>consecutiveMistakeCount = 2, toolErrors = []\<rparr>
        \<lparr>p_action = Some ''close'', p_file = None, p_files = None, block_partial = False\<rparr>))
      = 3
   \<and> handled (manageTabsTool (\<lambda>tag v. [])
        \<lparr>consecutiveMistakeCount = 2, toolErrors = []\<rparr>
        \<lparr>p_action = Some ''close'', p_file = None, p_files = None, block_partial = False\<rparr>)
      = None
   \<and> consecutiveMistakeCount (task_after (manageTabsTool (\<lambda>tag v. [])
        \<lparr>consecutiveMistakeCount = 2, toolErrors = []\<rparr>
        \<lparr>p_action = Some ''open'', p_file = Some ''src/App.tsx#50'', p_files = None,
          block_partial = False\<rparr>))
      = 0"
proof -
  let ?bad = "\<lparr>p_action = Some ''close'', p_file = None, p_files = None,
                block_partial = False\<rparr>"
  let ?good = "\<lparr>p_action = Some ''open'', p_file = Some ''src/App.tsx#50'', p_files = None,
          block_partial = False\<rparr>"
  let ?task = "\<lparr>consecutiveMistakeCount = 2, toolErrors = []\<rparr>"
  have p1: "\<not> block_partial ?bad" and p2: "\<not> block_partial ?good" by simp_all
  from manageTabsTool_validation_error [OF p1, of "\<lambda>tag v. []" ?task]
  have "consecutiveMistakeCount (task_after (manageTabsTool (\<lambda>tag v. []) ?task ?bad)) = 3"
    and "handled (manageTabsTool (\<lambda>tag v. []) ?task ?bad) = None"
    by simp_all
  moreover from manageTabsTool_validation_error [OF p2, of "\<lambda>tag v. []" ?task]
  have "consecutiveMistakeCount (task_after (manageTabsTool (\<lambda>tag v. []) ?task ?good)) = 0"
    by simp
  ultimately show ?thesis by simp
qed

section \<open>The manage_tabs tool: file paths with a line number\<close>

lemma lastIndexFrom_absent: "c \<notin> set xs \<Longrightarrow> lastIndexFrom c xs i found = found"
  by (induction xs arbitrary: i found) auto

lemma lastIndexFrom_last:
  "c \<notin> set l \<Longrightarrow> lastIndexFrom c (p @ c # l) i found = i + int (length p)"
proof (induction p arbitrary: i found)
  case Nil
  then show ?case by (simp add: lastIndexFrom_absent)
next
  case (Cons x p)
  from Cons.IH [OF Cons.prems, of "i + 1" "if x = c then i else found"]
  show ?case by simp
qed

lemma parseFileWithLine_no_hash:
  "CHR ''#'' \<notin> set filePath \<Longrightarrow> parseFileWithLine filePath = \<lparr>path = filePath, line = None\<rparr>"
  by (simp add: parseFileWithLine_def lastIndexOf_def lastIndexFrom_absent)

lemma parseFileWithLine_hash:
  assumes "filePath = pathPart @ CHR ''#'' # linePart" and "CHR ''#'' \<notin> set linePart"
  shows "parseFileWithLine filePath =
    (case parseInt linePart of
       None \<Rightarrow> \<lparr>path = filePath, line = None\<rparr>
     | Some n \<Rightarrow> if 1 \<le> n then \<lparr>path = pathPart, line = Some n\<rparr>
                 else \<lparr>path = filePath, line = None\<rparr>)"
proof -
  have idx: "lastIndexOf filePath (CHR ''#'') = int (length pathPart)"
    using lastIndexFrom_last [OF assms(2), of pathPart 0 "- 1"] assms(1)
    by (simp add: lastIndexOf_def)
  have "take (length pathPart) filePath = pathPart"
    and "drop (Suc (length pathPart)) filePath = linePart"
    using assms(1) by simp_all
  then show ?thesis
    by (simp add: parseFileWithLine_def idx Let_def nat_add_distrib
        split: option.splits)
qed

lemma parseFileWithLine_line_ge_1:
  "line (parseFileWithLine filePath) = Some n \<Longrightarrow> 1 \<le> n"
  by (simp add: parseFileWithLine_def Let_def split: if_splits option.splits)

text \<open>
  Claim C10. For every input string: with no \<open>#\<close> in it, the whole string is the path
  and there is no line. Otherwise the string splits at its last \<open>#\<close> into a prefix and
  a line part; when \<open>parseInt\<close> of the line part is a number that is at least 1, the
  path is the prefix and the line is that number; when it is \<open>NaN\<close> or less than 1, the
  whole string is the path and there is no line. A line that is returned is never less
  than 1, and a result with no line has the unchanged input as its path.
\<close>

theorem parseFileWithLine_spec:
  "(CHR ''#'' \<notin> set filePath \<longrightarrow>
      parseFileWithLine filePath = \<lparr>path = filePath, line = None\<rparr>)
   \<and> (filePath = pathPart @ CHR ''#'' # linePart \<and> CHR ''#'' \<notin> set linePart \<longrightarrow>
      parseFileWithLine filePath =
        (case parseInt linePart of
           None \<Rightarrow> \<lparr>path = filePath, line = None\<rparr>
         | Some n \<Rightarrow> if 1 \<le> n then \<lparr>path = pathPart, line = Some n\<rparr>
                     else \<lparr>path = filePath, line = None\<rparr>))
   \<and> (\<forall>n. line (parseFileWithLine filePath) = Some n \<longrightarrow> 1 \<le> n)
   \<and> (line (parseFileWithLine filePath) = None \<longrightarrow> path (parseFileWithLine filePath) = filePath)"
proof -
  have "line (parseFileWithLine filePath) = None \<longrightarrow> path (parseFileWithLine filePath) = filePath"
    by (simp add: parseFileWithLine_def Let_def split: if_splits option.splits)
  then show ?thesis
    using parseFileWithLine_no_hash [of filePath]
      parseFileWithLine_hash [of filePath pathPart linePart]
      parseFileWithLine_line_ge_1 [of filePath]
    by blast
qed

text \<open>The inputs of the tool's own tests.\<close>

theorem parseFileWithLine_spec_witness:
  "parseFileWithLine ''src/file#with#hash.js#100''
     = \<lparr>path = ''src/file#with#hash.js'', line = Some 100\<rparr>
   \<and> parseFileWithLine ''src/test.js#0'' = \<lparr>path = ''src/test.js#0'', line = None\<rparr>
   \<and> parseFileWithLine ''src/test.js#abc'' = \<lparr>path = ''src/test.js#abc'', line = None\<rparr>
   \<and> parseFileWithLine ''src/test.js#'' = \<lparr>path = ''src/test.js#'', line = None\<rparr>
   \<and> parseFileWithLine ''src/test.js'' = \<lparr>path = ''src/test.js'', line = None\<rparr>"
proof -
  have i1: "parseInt ''100'' = Some 100" by code_simp
  have i2: "parseInt ''0'' = Some 0" by code_simp
  have i3: "parseInt ''abc'' = None" by code_simp
  have i4: "parseInt '''' = None" by code_simp
  from parseFileWithLine_spec [of "''src/file#with#hash.js#100''" "''src/file#with#hash.js''" "''100''"]
  have "parseFileWithLine ''src/file#with#hash.js#100''
     = \<lparr>path = ''src/file#with#hash.js'', line = Some 100\<rparr>"
    by (simp add: i1)
  moreover from parseFileWithLine_spec [of "''src/test.js#0''" "''src/test.js''" "''0''"]
  have "parseFileWithLine ''src/test.js#0'' = \<lparr>path = ''src/test.js#0'', line = None\<rparr>"
    by (simp add: i2)
  moreover from parseFileWithLine_spec [of "''src/test.js#abc''" "''src/test.js''" "''abc''"]
  have "parseFileWithLine ''src/test.js#abc'' = \<lparr>path = ''src/test.js#abc'', line = None\<rparr>"
    by (simp add: i3)
  moreover from parseFileWithLine_spec [of "''src/test.js#''" "''src/test.js''" "''''"]
  have "parseFileWithLine ''src/test.js#'' = \<lparr>path = ''src/test.js#'', line = None\<rparr>"
    by (simp add: i4)
  moreover from parseFileWithLine_spec [of "''src/test.js''"]
  have "parseFileWithLine ''src/test.js'' = \<lparr>path = ''src/test.js'', line = None\<rparr>"
    by simp
  ultimately show ?thesis by blast
qed

section \<open>The log reconciler: protection of local entries\<close>












end
